theory Spec2Isabelle
  imports Main
begin

section \<open>The JavaScript values the line selection works with\<close>

text \<open>
  The selection of \<^verbatim>\<open>EditorTextArea.js\<close> is a two-element array of JavaScript values.
  The values that can occur there are numbers, \<^verbatim>\<open>NaN\<close> (from \<^verbatim>\<open>parseInt\<close>) and
  \<^verbatim>\<open>undefined\<close> (from reading an array past its end). The numbers that the code
  produces are doubles with an integer value, from \<^verbatim>\<open>Number\<close> and \<^verbatim>\<open>parseInt\<close> on
  digits, and the two infinities, when the digits overflow. \<open>Num n\<close> is the double
  with the integer value \<open>n\<close>; every integer below \<open>2 ^ 53\<close> in absolute value is such
  a double, and above that only the values of \<open>to_double\<close> are. The two zeros of
  JavaScript are one value here: they are equal under \<^verbatim>\<open>===\<close> and print alike. Strings
  are lists of 8-bit characters.
\<close>

datatype jsval = Num int | PosInfinity | NegInfinity | NaN | Undefined

text \<open>\<^verbatim>\<open>x === y\<close>: \<^verbatim>\<open>NaN\<close> is equal to nothing, not even to itself.\<close>

fun strict_eq :: "jsval \<Rightarrow> jsval \<Rightarrow> bool" where
  "strict_eq (Num x) (Num y) = (x = y)"
| "strict_eq PosInfinity PosInfinity = True"
| "strict_eq NegInfinity NegInfinity = True"
| "strict_eq Undefined Undefined = True"
| "strict_eq _ _ = False"

text \<open>The global \<^verbatim>\<open>isNaN(x)\<close>, which converts its argument to a number first.\<close>

fun isNaN :: "jsval \<Rightarrow> bool" where
  "isNaN NaN = True"
| "isNaN Undefined = True"
| "isNaN _ = False"

text \<open>\<^verbatim>\<open>x < y\<close> on numbers; false as soon as one side is not a number.\<close>

fun js_less :: "jsval \<Rightarrow> jsval \<Rightarrow> bool" where
  "js_less (Num x) (Num y) = (x < y)"
| "js_less (Num x) PosInfinity = True"
| "js_less NegInfinity (Num y) = True"
| "js_less NegInfinity PosInfinity = True"
| "js_less _ _ = False"

text \<open>\<^verbatim>\<open>Math.min(x, y)\<close> and \<^verbatim>\<open>Math.max(x, y)\<close>: \<^verbatim>\<open>NaN\<close> as soon as one argument
  does not convert to a number.\<close>

definition Math_min :: "jsval \<Rightarrow> jsval \<Rightarrow> jsval" where
  "Math_min x y = (if isNaN x \<or> isNaN y then NaN else if js_less y x then y else x)"

definition Math_max :: "jsval \<Rightarrow> jsval \<Rightarrow> jsval" where
  "Math_max x y = (if isNaN x \<or> isNaN y then NaN else if js_less x y then y else x)"

subsection \<open>Digits\<close>

definition is_digit :: "char \<Rightarrow> bool" where
  "is_digit c \<longleftrightarrow> 48 \<le> (of_char c :: int) \<and> (of_char c :: int) \<le> 57"

definition digit_val :: "char \<Rightarrow> int" where
  "digit_val c = of_char c - 48"

definition digit_char :: "int \<Rightarrow> char" where
  "digit_char d = char_of (48 + d)"

text \<open>The decimal digits of an integer that is not negative, most significant first, with
  no leading zero.\<close>

function decimal :: "int \<Rightarrow> string" where
  "decimal n =
     (if n < 10 then [digit_char n] else decimal (n div 10) @ [digit_char (n mod 10)])"
  by pat_completeness auto
termination
  by (relation "measure nat") auto

declare decimal.simps [simp del]

text \<open>The value of a string of decimal digits, read left to right.\<close>

definition dec_value :: "string \<Rightarrow> int" where
  "dec_value s = foldl (\<lambda>acc c. 10 * acc + digit_val c) 0 s"

subsection \<open>Integers as doubles\<close>

text \<open>
  The double nearest to an integer \<open>n\<close> that is not negative, as \<^verbatim>\<open>Number\<close> and
  \<^verbatim>\<open>parseInt\<close> give it for the digits of \<open>n\<close>: \<open>n\<close> itself below \<open>2 ^ 53\<close>; above,
  the 53 leading bits of \<open>n\<close>, rounded to nearest with ties to the even significand;
  \<^verbatim>\<open>Infinity\<close> when the rounded value reaches \<open>2 ^ 1024\<close>. (For more than 20 significant
  digits the language lets an implementation round less exactly; the engines in use round
  as here.)
\<close>

function bitlen :: "int \<Rightarrow> nat" where
  "bitlen n = (if n \<le> 0 then 0 else Suc (bitlen (n div 2)))"
  by pat_completeness auto
termination
  by (relation "measure nat") auto

declare bitlen.simps [simp del]

definition to_double :: "int \<Rightarrow> jsval" where
  "to_double n =
     (if n < 2 ^ 53 then Num n
      else
        (let e = bitlen n - 53;
             q = n div 2 ^ e;
             r = n mod 2 ^ e;
             m = (if 2 ^ e < 2 * r \<or> (2 * r = 2 ^ e \<and> odd q) then q + 1 else q)
         in if 2 ^ 1024 \<le> m * 2 ^ e then PosInfinity else Num (m * 2 ^ e)))"

text \<open>
  The string of a double \<open>x\<close> with a positive integer value, as a template literal
  inserts it. The language takes the decimal number \<open>s \<times> 10 ^ e\<close> with the fewest
  digits \<open>s\<close> among those whose nearest double is \<open>x\<close>, the closest to \<open>x\<close> when there
  are several, an even \<open>s\<close> when two are as close. It writes that number in full when
  it has at most 21 digits, and as \<^verbatim>\<open>d.ddde+n\<close> otherwise. Below \<open>2 ^ 53\<close> the number
  is \<open>x\<close> itself. Above, \<open>shortest_from\<close> looks for it among the two multiples of
  \<open>10 ^ e\<close> next to \<open>x\<close>, from the largest \<open>e\<close> down: the first \<open>e\<close> with a multiple
  whose nearest double is \<open>x\<close> is the one with the fewest digits.
\<close>

fun shortest_from :: "nat \<Rightarrow> int \<Rightarrow> int" where
  "shortest_from 0 x = x"
| "shortest_from (Suc e) x =
     (let lo = x div 10 ^ Suc e * 10 ^ Suc e;
          hi = lo + 10 ^ Suc e;
          lo_ok = (to_double lo = Num x);
          hi_ok = (to_double hi = Num x)
      in if lo_ok \<and> hi_ok then
           (if x - lo < hi - x then lo
            else if hi - x < x - lo then hi
            else if even (x div 10 ^ Suc e) then lo else hi)
         else if lo_ok then lo
         else if hi_ok then hi
         else shortest_from e x)"

definition shortest :: "int \<Rightarrow> int" where
  "shortest x = shortest_from (length (decimal x) - 1) x"

function strip_zeros :: "int \<Rightarrow> int" where
  "strip_zeros n = (if n \<le> 0 \<or> n mod 10 \<noteq> 0 then n else strip_zeros (n div 10))"
  by pat_completeness auto
termination
  by (relation "measure nat") auto

declare strip_zeros.simps [simp del]

definition number_string :: "int \<Rightarrow> string" where
  "number_string x =
     (if x < 2 ^ 53 then decimal x
      else
        (let v = shortest x;
             n = length (decimal v);
             s = decimal (strip_zeros v)
         in if n \<le> 21 then decimal v
            else (if length s = 1 then s else hd s # CHR ''.'' # tl s)
                 @ ''e+'' @ decimal (int n - 1)))"

text \<open>What a template literal \<^verbatim>\<open>`${x}`\<close> inserts for \<open>x\<close>.\<close>

fun ToString :: "jsval \<Rightarrow> string" where
  "ToString (Num n) = (if n < 0 then CHR ''-'' # number_string (- n) else number_string n)"
| "ToString PosInfinity = ''Infinity''"
| "ToString NegInfinity = ''-Infinity''"
| "ToString NaN = ''NaN''"
| "ToString Undefined = ''undefined''"

text \<open>
  \<^verbatim>\<open>Number(s)\<close> for a string. The code applies it only to the pieces of a fragment
  that has passed the test \<^verbatim>\<open>/^#L\d+(-\d+)?$/\<close>, which are non-empty strings of digits
  (lemma \<open>Number_only_on_digits\<close> below); there it is the double nearest to the decimal
  value. On the other strings that the model lets through it is \<^verbatim>\<open>NaN\<close>; the numeric
  literals of JavaScript that are not digit strings (the empty string, signs, fractions,
  exponents, prefixes) never reach it.
\<close>

definition Number_str :: "string \<Rightarrow> jsval" where
  "Number_str s = (if s \<noteq> [] \<and> list_all is_digit s then to_double (dec_value s) else NaN)"

section \<open>The selection and \<^verbatim>\<open>toggleSelected\<close>\<close>

type_synonym selection = "jsval \<times> jsval"

text \<open>A DOM element as far as the click handler reads it, and a click event.\<close>

record element =
  classList :: "string list"
  textContent :: string

record click =
  target :: "element option"
  shiftKey :: bool

text \<open>
  \<^verbatim>\<open>
  function toggleSelected(lineNo, e) {
    const shift = e.shiftKey;
    if (selected[0] === lineNo && selected[1] === lineNo) {
      setSelected([-1, -1]);
    } else if (selected[0] === -1 || !shift) {
      setSelected([lineNo, lineNo]);
    } else {
      setSelected([selected[0], lineNo]);
    }
  }
  \<close>
  The function takes the selection of the current render and returns the one it sets.
\<close>

definition toggleSelected :: "selection \<Rightarrow> jsval \<Rightarrow> click \<Rightarrow> selection" where
  "toggleSelected selected lineNo e =
     (let shift = shiftKey e in
      if strict_eq (fst selected) lineNo \<and> strict_eq (snd selected) lineNo then
        (Num (- 1), Num (- 1))
      else if strict_eq (fst selected) (Num (- 1)) \<or> \<not> shift then
        (lineNo, lineNo)
      else
        (fst selected, lineNo))"

text \<open>The three cases of the toggle policy, in the specification's words.\<close>

definition collapse_case :: "int \<Rightarrow> int \<Rightarrow> int \<Rightarrow> bool \<Rightarrow> bool" where
  "collapse_case a b line shiftHeld \<longleftrightarrow> a = b \<and> b = line"

definition replace_case :: "int \<Rightarrow> int \<Rightarrow> int \<Rightarrow> bool \<Rightarrow> bool" where
  "replace_case a b line shiftHeld \<longleftrightarrow>
     \<not> collapse_case a b line shiftHeld \<and> (a = - 1 \<or> \<not> shiftHeld)"

definition extend_case :: "int \<Rightarrow> int \<Rightarrow> int \<Rightarrow> bool \<Rightarrow> bool" where
  "extend_case a b line shiftHeld \<longleftrightarrow>
     a \<noteq> - 1 \<and> shiftHeld \<and> \<not> collapse_case a b line shiftHeld"

definition toggle_spec :: "int \<times> int \<Rightarrow> int \<Rightarrow> bool \<Rightarrow> int \<times> int" where
  "toggle_spec sel line shiftHeld =
     (if collapse_case (fst sel) (snd sel) line shiftHeld then (- 1, - 1)
      else if replace_case (fst sel) (snd sel) line shiftHeld then (line, line)
      else (fst sel, line))"

definition sel_of :: "int \<times> int \<Rightarrow> selection" where
  "sel_of p = (Num (fst p), Num (snd p))"

section \<open>\<^verbatim>\<open>useSelectedLine\<close>: the fragment of the URL\<close>

text \<open>
  \<^verbatim>\<open>/^#L\d+(-\d+)?$/.test(hash)\<close>: the two characters \<^verbatim>\<open>#L\<close>, then the longest run of
  digits, which is not empty, then either the end of the string or a \<^verbatim>\<open>-\<close> followed by
  digits only, at least one, up to the end. A digit is never a \<^verbatim>\<open>-\<close>, so the greedy
  \<^verbatim>\<open>\d+\<close> decides the match without backtracking.
\<close>

definition hash_test :: "string \<Rightarrow> bool" where
  "hash_test hash =
     (take 2 hash = ''#L'' \<and>
      (let ds = takeWhile is_digit (drop 2 hash);
           r = dropWhile is_digit (drop 2 hash)
       in ds \<noteq> [] \<and>
          (r = [] \<or> (hd r = CHR ''-'' \<and> tl r \<noteq> [] \<and> list_all is_digit (tl r)))))"

text \<open>\<^verbatim>\<open>s.split(sep)\<close> for a separator of one character: never an empty array.\<close>

fun split_sep :: "char \<Rightarrow> string \<Rightarrow> string list" where
  "split_sep sep [] = [[]]"
| "split_sep sep (c # cs) =
     (if c = sep then [] # split_sep sep cs
      else (case split_sep sep cs of
              [] \<Rightarrow> [[c]]
            | p # ps \<Rightarrow> (c # p) # ps))"

text \<open>Reading an array at an index: \<^verbatim>\<open>undefined\<close> past its end.\<close>

definition nth_js :: "jsval list \<Rightarrow> nat \<Rightarrow> jsval" where
  "nth_js xs i = (if i < length xs then xs ! i else Undefined)"

text \<open>
  \<^verbatim>\<open>
  const [selected, setSelected] = useState(() => {
    const hash = window.location.hash;
    if (/^#L\d+(-\d+)?$/.test(hash)) {
      const [start, end] = hash.substring(2).split('-').map(Number);
      return [start, isNaN(end) ? start : end];
    } else {
      return [-1, -1];
    }
  });
  \<close>
\<close>

definition useState_init :: "string \<Rightarrow> selection" where
  "useState_init hash =
     (if hash_test hash then
        (let arr = map Number_str (split_sep CHR ''-'' (drop 2 hash));
             start = nth_js arr 0;
             endn = nth_js arr 1
         in (start, if isNaN endn then start else endn))
      else (Num (- 1), Num (- 1)))"

text \<open>
  \<^verbatim>\<open>
  useEffect(() => {
    let hash = '';
    if (selected[0] !== -1) {
      if (selected[1] !== selected[0]) {
        const start = Math.min(...selected);
        const end = Math.max(...selected);
        hash = `#L${start}-${end}`;
      } else {
        hash = `#L${selected[0]}`;
      }
    }
    history.replace({ hash });
  }, [selected]);
  \<close>
  The function gives the fragment that the effect writes for a selection.
\<close>

definition hash_effect :: "selection \<Rightarrow> string" where
  "hash_effect selected =
     (if \<not> strict_eq (fst selected) (Num (- 1)) then
        (if \<not> strict_eq (snd selected) (fst selected) then
           (let start = Math_min (fst selected) (snd selected);
                endn = Math_max (fst selected) (snd selected)
            in ''#L'' @ ToString start @ ''-'' @ ToString endn)
         else ''#L'' @ ToString (fst selected))
      else [])"

text \<open>
  The hook as a state machine: the selection of the last render and the fragment of the
  URL. Mounting takes the initial selection from the fragment and runs the effect once;
  every call of \<^verbatim>\<open>toggleSelected\<close> sets a new array, so the effect runs again.
\<close>

record view =
  cur_selected :: selection
  cur_hash :: string

definition mount :: "string \<Rightarrow> view" where
  "mount hash =
     (let s = useState_init hash in \<lparr>cur_selected = s, cur_hash = hash_effect s\<rparr>)"

definition toggle_view :: "view \<Rightarrow> jsval \<Rightarrow> click \<Rightarrow> view" where
  "toggle_view v lineNo e =
     (let s = toggleSelected (cur_selected v) lineNo e
      in \<lparr>cur_selected = s, cur_hash = hash_effect s\<rparr>)"

fun toggle_all :: "selection \<Rightarrow> (jsval \<times> click) list \<Rightarrow> selection" where
  "toggle_all s [] = s"
| "toggle_all s ((lineNo, e) # cs) = toggle_all (toggleSelected s lineNo e) cs"

text \<open>Line numbers and the invariant of the selection, as the specification words it
  (positive line numbers) and as the code keeps it (numbers that are not negative: zero
  and \<^verbatim>\<open>Infinity\<close> included).\<close>

fun positive_line :: "jsval \<Rightarrow> bool" where
  "positive_line (Num n) = (0 < n)"
| "positive_line _ = False"

fun nonneg_line :: "jsval \<Rightarrow> bool" where
  "nonneg_line (Num n) = (0 \<le> n)"
| "nonneg_line PosInfinity = True"
| "nonneg_line _ = False"

definition positive_calls :: "(jsval \<times> click) list \<Rightarrow> bool" where
  "positive_calls cs = list_all (\<lambda>c. positive_line (fst c)) cs"

definition spec_invariant :: "selection \<Rightarrow> bool" where
  "spec_invariant s \<longleftrightarrow>
     s = (Num (- 1), Num (- 1)) \<or> (positive_line (fst s) \<and> positive_line (snd s))"

definition code_invariant :: "selection \<Rightarrow> bool" where
  "code_invariant s \<longleftrightarrow>
     s = (Num (- 1), Num (- 1)) \<or> (nonneg_line (fst s) \<and> nonneg_line (snd s))"

text \<open>The integers that are doubles, and the line numbers that the round trip through
  the fragment is stated for: doubles from 0 up to, and without, \<open>10 ^ 21\<close>.\<close>

definition is_double :: "int \<Rightarrow> bool" where
  "is_double n \<longleftrightarrow> 0 \<le> n \<and> to_double n = Num n"

definition plain_line :: "int \<Rightarrow> bool" where
  "plain_line n \<longleftrightarrow> is_double n \<and> n < 10 ^ 21"

section \<open>\<^verbatim>\<open>useLineNumberMagic\<close>: clicks and the highlight\<close>

text \<open>
  \<^verbatim>\<open>parseInt(s)\<close> with no radix: white space is skipped, a sign is read, the prefix
  \<^verbatim>\<open>0x\<close> or \<^verbatim>\<open>0X\<close> selects radix 16, and the longest run of digits of the radix is
  read; the result is the double nearest to its value, with the sign, and \<^verbatim>\<open>NaN\<close> when
  that run is empty. The white space characters below are those among the 8-bit
  characters.
\<close>

definition is_space :: "char \<Rightarrow> bool" where
  "is_space c \<longleftrightarrow> (of_char c :: int) \<in> {9, 10, 11, 12, 13, 32, 160}"

definition radix_digit :: "int \<Rightarrow> char \<Rightarrow> int option" where
  "radix_digit R c =
     (let n = (of_char c :: int);
          v = (if 48 \<le> n \<and> n \<le> 57 then Some (n - 48)
               else if 97 \<le> n \<and> n \<le> 122 then Some (n - 97 + 10)
               else if 65 \<le> n \<and> n \<le> 90 then Some (n - 65 + 10)
               else None)
      in case v of None \<Rightarrow> None | Some d \<Rightarrow> if d < R then Some d else None)"

fun js_negate :: "jsval \<Rightarrow> jsval" where
  "js_negate (Num n) = Num (- n)"
| "js_negate PosInfinity = NegInfinity"
| "js_negate NegInfinity = PosInfinity"
| "js_negate v = v"

definition parseInt :: "string \<Rightarrow> jsval" where
  "parseInt inputString =
     (let S = dropWhile is_space inputString;
          negative = (S \<noteq> [] \<and> hd S = CHR ''-'');
          S1 = (if S \<noteq> [] \<and> (hd S = CHR ''+'' \<or> hd S = CHR ''-'') then tl S else S);
          hex = (take 2 S1 = ''0x'' \<or> take 2 S1 = ''0X'');
          R = (if hex then 16 else 10);
          S2 = (if hex then drop 2 S1 else S1);
          Z = takeWhile (\<lambda>c. radix_digit R c \<noteq> None) S2;
          mathInt = foldl (\<lambda>acc c. R * acc + the (radix_digit R c)) 0 Z
      in if Z = [] then NaN
         else if negative then js_negate (to_double mathInt) else to_double mathInt)"

text \<open>
  \<^verbatim>\<open>
  const handler = click => {
    const target = click?.target;
    if (target && target.classList.contains('line-numbers')) {
      toggleSelected(parseInt(target.textContent), click);
    }
  };
  \<close>
  The result is the call of \<^verbatim>\<open>toggleSelected\<close> that the handler makes, if it makes one.
\<close>

definition handler :: "click option \<Rightarrow> (jsval \<times> click) option" where
  "handler clk =
     (case clk of
        None \<Rightarrow> None
      | Some c \<Rightarrow>
          (case target c of
             None \<Rightarrow> None
           | Some t \<Rightarrow>
               if ''line-numbers'' \<in> set (classList t)
               then Some (parseInt (textContent t), c)
               else None))"

text \<open>A text from which \<^verbatim>\<open>parseInt\<close> reads a number.\<close>

definition numeric_text :: "string \<Rightarrow> bool" where
  "numeric_text s \<longleftrightarrow> \<not> isNaN (parseInt s)"

text \<open>
  The calls that the highlight effect makes on the editor. The class \<^verbatim>\<open>Range\<close> belongs to
  the viewer (monaco-editor), not to this repository; \<open>new_Range\<close> is its constructor
  as the viewer defines it, which stores the two positions in order:
  \<^verbatim>\<open>
  constructor(startLineNumber, startColumn, endLineNumber, endColumn) {
    if ((startLineNumber > endLineNumber) ||
        (startLineNumber === endLineNumber && startColumn > endColumn)) {
      this.startLineNumber = endLineNumber;
      this.startColumn = endColumn;
      this.endLineNumber = startLineNumber;
      this.endColumn = startColumn;
    } else {
      this.startLineNumber = startLineNumber;
      this.startColumn = startColumn;
      this.endLineNumber = endLineNumber;
      this.endColumn = endColumn;
    }
  }
  \<close>
\<close>

record monaco_Range =
  startLineNumber :: jsval
  startColumn :: jsval
  endLineNumber :: jsval
  endColumn :: jsval

definition new_Range :: "jsval \<Rightarrow> jsval \<Rightarrow> jsval \<Rightarrow> jsval \<Rightarrow> monaco_Range" where
  "new_Range l1 c1 l2 c2 =
     (if js_less l2 l1 \<or> (strict_eq l1 l2 \<and> js_less c2 c1) then
        \<lparr>startLineNumber = l2, startColumn = c2, endLineNumber = l1, endColumn = c1\<rparr>
      else
        \<lparr>startLineNumber = l1, startColumn = c1, endLineNumber = l2, endColumn = c2\<rparr>)"

record decoration =
  range_val :: monaco_Range
  isWholeLine :: bool
  linesDecorationsClassName :: string

datatype editor_call =
    deltaDecorations "string list" "decoration list"
  | revealLineInCenterIfOutsideViewport jsval
  | revealLinesInCenterIfOutsideViewport jsval jsval

text \<open>
  \<^verbatim>\<open>
  useEffect(() => {
    if (!editor || !monaco || selected[0] === -1) {
      return;
    }
    const newDecorations = [
      {
        range: new monaco.Range(selected[0], 1, selected[1], 1),
        options: { isWholeLine: true, linesDecorationsClassName: 'highlighted-line' },
      },
    ];
    const decorations = editor.deltaDecorations([], newDecorations);
    if (selected[0] === selected[1]) {
      editor.revealLineInCenterIfOutsideViewport(selected[0]);
    } else {
      editor.revealLinesInCenterIfOutsideViewport(selected[0], selected[1]);
    }
    return () => { editor.deltaDecorations(decorations, []); };
  }, [editor, monaco, selected, forcedContent]);
  \<close>
  The two flags say whether the editor and monaco are set. The result is the list
  of the calls that a run of the effect makes, in order.
\<close>

definition highlight_effect :: "bool \<Rightarrow> bool \<Rightarrow> selection \<Rightarrow> editor_call list" where
  "highlight_effect editor monaco selected =
     (if \<not> editor \<or> \<not> monaco \<or> strict_eq (fst selected) (Num (- 1)) then []
      else
        [deltaDecorations []
           [\<lparr>range_val = new_Range (fst selected) (Num 1) (snd selected) (Num 1),
             isWholeLine = True,
             linesDecorationsClassName = ''highlighted-line''\<rparr>],
         if strict_eq (fst selected) (snd selected)
         then revealLineInCenterIfOutsideViewport (fst selected)
         else revealLinesInCenterIfOutsideViewport (fst selected) (snd selected)])"

text \<open>The decorations that a run of the effect asks for, and its scroll requests.\<close>

fun requested_decorations :: "editor_call list \<Rightarrow> decoration list" where
  "requested_decorations [] = []"
| "requested_decorations (deltaDecorations old new # cs) = new @ requested_decorations cs"
| "requested_decorations (c # cs) = requested_decorations cs"

fun is_reveal :: "editor_call \<Rightarrow> bool" where
  "is_reveal (deltaDecorations old new) = False"
| "is_reveal _ = True"

text \<open>
  Whether a scroll request puts its target in the centre of the viewport when the target
  is out of view, as the names of the two methods of the editor say.
\<close>

fun centers_if_outside :: "editor_call \<Rightarrow> bool" where
  "centers_if_outside (revealLineInCenterIfOutsideViewport l) = True"
| "centers_if_outside (revealLinesInCenterIfOutsideViewport l1 l2) = True"
| "centers_if_outside (deltaDecorations old new) = False"

section \<open>Digits and decimal numerals\<close>

lemma of_char_digit_char: "0 \<le> d \<Longrightarrow> d < 10 \<Longrightarrow> (of_char (digit_char d) :: int) = 48 + d"
  by (simp add: digit_char_def)

lemma is_digit_digit_char: "0 \<le> d \<Longrightarrow> d < 10 \<Longrightarrow> is_digit (digit_char d)"
  by (simp add: is_digit_def of_char_digit_char)

lemma digit_val_digit_char: "0 \<le> d \<Longrightarrow> d < 10 \<Longrightarrow> digit_val (digit_char d) = d"
  by (simp add: digit_val_def of_char_digit_char)

lemma digit_char_not_zero: "0 < d \<Longrightarrow> d < 10 \<Longrightarrow> digit_char d \<noteq> CHR ''0''"
proof
  assume d: "0 < d" "d < 10" and eq: "digit_char d = CHR ''0''"
  from d have "(of_char (digit_char d) :: int) = 48 + d"
    by (simp add: of_char_digit_char)
  with eq d show False by simp
qed

lemma digit_char_simps:
  "digit_char 0 = CHR ''0''" "digit_char 1 = CHR ''1''" "digit_char 2 = CHR ''2''"
  "digit_char 3 = CHR ''3''" "digit_char 4 = CHR ''4''" "digit_char 5 = CHR ''5''"
  "digit_char 6 = CHR ''6''" "digit_char 7 = CHR ''7''" "digit_char 8 = CHR ''8''"
  "digit_char 9 = CHR ''9''"
  by code_simp+

lemma not_digit_dash: "\<not> is_digit CHR ''-''"
  by (simp add: is_digit_def)

lemma dec_value_snoc: "dec_value (xs @ [c]) = 10 * dec_value xs + digit_val c"
  by (simp add: dec_value_def)

lemma digit_val_nonneg: "is_digit c \<Longrightarrow> 0 \<le> digit_val c"
  by (simp add: is_digit_def digit_val_def)

lemma dec_value_nonneg: "list_all is_digit ds \<Longrightarrow> 0 \<le> dec_value ds"
proof (induction ds rule: rev_induct)
  case Nil
  then show ?case by (simp add: dec_value_def)
next
  case (snoc c ds)
  then show ?case
    by (simp add: dec_value_snoc digit_val_nonneg)
qed

lemma decimal_nonempty: "decimal n \<noteq> []"
  by (subst decimal.simps) simp

lemma decimal_all_digits: "0 \<le> n \<Longrightarrow> list_all is_digit (decimal n)"
proof (induction n rule: decimal.induct)
  case (1 n)
  show ?case
  proof (cases "n < 10")
    case True
    with 1(2) show ?thesis
      by (subst decimal.simps) (simp add: is_digit_digit_char)
  next
    case False
    with 1 show ?thesis
      by (subst decimal.simps) (simp add: is_digit_digit_char)
  qed
qed

lemma dec_value_decimal: "0 \<le> n \<Longrightarrow> dec_value (decimal n) = n"
proof (induction n rule: decimal.induct)
  case (1 n)
  show ?case
  proof (cases "n < 10")
    case True
    with 1(2) show ?thesis
      by (subst decimal.simps) (simp add: dec_value_def digit_val_digit_char)
  next
    case False
    with 1 have "dec_value (decimal (n div 10)) = n div 10" by simp
    with False show ?thesis
      by (subst decimal.simps) (simp add: dec_value_snoc digit_val_digit_char)
  qed
qed

lemma decimal_hd_not_zero: "0 < n \<Longrightarrow> hd (decimal n) \<noteq> CHR ''0''"
proof (induction n rule: decimal.induct)
  case (1 n)
  show ?case
  proof (cases "n < 10")
    case True
    with 1(2) show ?thesis
      by (subst decimal.simps) (simp add: digit_char_not_zero)
  next
    case False
    with 1 have "hd (decimal (n div 10)) \<noteq> CHR ''0''" by simp
    with False show ?thesis
      by (subst decimal.simps) (simp add: decimal_nonempty)
  qed
qed

lemma decimal_length_le: "n < 10 ^ k \<Longrightarrow> 0 < k \<Longrightarrow> length (decimal n) \<le> k"
proof (induction n arbitrary: k rule: decimal.induct)
  case (1 n)
  show ?case
  proof (cases "n < 10")
    case True
    with 1(3) show ?thesis
      by (subst decimal.simps) simp
  next
    case False
    with 1(2) have "1 < k"
      by (cases "k = 1") (use 1(3) in auto)
    then obtain j where k: "k = Suc j" and j: "0 < j"
      by (cases k) auto
    from 1(2) k have "n div 10 < 10 ^ j"
      by simp
    with 1(1) [OF False] j have "length (decimal (n div 10)) \<le> j"
      by simp
    with False k show ?thesis
      by (subst decimal.simps) simp
  qed
qed

section \<open>Integers as doubles\<close>

lemma to_double_small: "n < 2 ^ 53 \<Longrightarrow> to_double n = Num n"
  by (simp add: to_double_def)

lemma not_isNaN_to_double: "\<not> isNaN (to_double n)"
  by (simp add: to_double_def Let_def)

lemma nonneg_line_to_double: "0 \<le> n \<Longrightarrow> nonneg_line (to_double n)"
  by (simp add: to_double_def Let_def pos_imp_zdiv_nonneg_iff)

lemma Math_min_Num [simp]: "Math_min (Num x) (Num y) = Num (min x y)"
  by (simp add: Math_min_def min_def)

lemma Math_max_Num [simp]: "Math_max (Num x) (Num y) = Num (max x y)"
  by (simp add: Math_max_def max_def)

lemma to_double_ten_21: "to_double (10 ^ 21) = Num (10 ^ 21)"
  by code_simp

lemma div_mult_floor_le:
  fixes x P :: int
  assumes "0 < P"
  shows "x div P * P \<le> x"
proof -
  have "x div P * P + x mod P = x" by simp
  moreover from assms have "0 \<le> x mod P" by simp
  ultimately show ?thesis by linarith
qed

lemma next_multiple_le:
  fixes x P M :: int
  assumes "0 < P" "P dvd M" "x < M"
  shows "x div P * P + P \<le> M"
proof -
  from assms(2) obtain k where M: "M = P * k" ..
  have "P * (x div P) \<le> x"
    using div_mult_floor_le [OF assms(1), of x] by (simp add: mult.commute)
  with assms(3) M have "P * (x div P) < P * k" by simp
  with assms(1) have "x div P < k"
    by (simp add: mult_less_cancel_left_pos)
  then have "x div P + 1 \<le> k" by simp
  with assms(1) have "(x div P + 1) * P \<le> k * P"
    by (simp add: mult_right_mono)
  with M show ?thesis
    by (simp add: algebra_simps)
qed

lemma to_double_shortest_from:
  "to_double x = Num x \<Longrightarrow> to_double (shortest_from e x) = Num x"
  by (induction e) (auto simp: Let_def)

lemma shortest_from_bounds:
  assumes "0 \<le> x" "x < 10 ^ 21" "to_double x = Num x"
  shows "e \<le> 20 \<Longrightarrow> 0 \<le> shortest_from e x \<and> shortest_from e x < 10 ^ 21"
proof (induction e)
  case 0
  with assms show ?case by simp
next
  case (Suc e)
  define P :: int where "P = 10 ^ Suc e"
  define lo where "lo = x div P * P"
  have P: "0 < P" by (simp add: P_def)
  have lo: "0 \<le> lo" "lo \<le> x"
    using assms(1) P div_mult_floor_le [OF P, of x]
    by (simp_all add: lo_def pos_imp_zdiv_nonneg_iff)
  from Suc.prems have "Suc e \<le> 21" by simp
  then have "(10::int) ^ Suc e dvd 10 ^ 21"
    by (rule le_imp_power_dvd)
  then have hi: "lo + P \<le> 10 ^ 21"
    unfolding lo_def P_def using next_multiple_le [of "10 ^ Suc e" "10 ^ 21" x] assms(2) by simp
  have hi_ok: "lo + P < 10 ^ 21" if "to_double (lo + P) = Num x"
  proof (rule ccontr)
    assume "\<not> lo + P < 10 ^ 21"
    with hi have "lo + P = 10 ^ 21" by simp
    with that to_double_ten_21 assms(2) show False by simp
  qed
  from Suc have IH: "0 \<le> shortest_from e x \<and> shortest_from e x < 10 ^ 21" by simp
  have step: "shortest_from (Suc e) x = lo
      \<or> (shortest_from (Suc e) x = lo + P \<and> to_double (lo + P) = Num x)
      \<or> shortest_from (Suc e) x = shortest_from e x"
    unfolding lo_def P_def by (simp add: Let_def)
  with lo P hi_ok IH assms(2) show ?case
    by auto
qed

lemma plain_line_string:
  assumes "plain_line x"
  shows "\<exists>v. 0 \<le> v \<and> number_string x = decimal v \<and> to_double v = Num x"
proof (cases "x < 2 ^ 53")
  case True
  with assms show ?thesis
    by (auto simp: number_string_def plain_line_def is_double_def)
next
  case False
  from assms have x: "0 \<le> x" "x < 10 ^ 21" "to_double x = Num x"
    by (simp_all add: plain_line_def is_double_def)
  from x(2) have "length (decimal x) \<le> 21"
    by (rule decimal_length_le) simp
  then have "length (decimal x) - 1 \<le> 20" by simp
  from shortest_from_bounds [OF x this]
  have v: "0 \<le> shortest x" "shortest x < 10 ^ 21"
    by (simp_all add: shortest_def)
  from v(2) have "length (decimal (shortest x)) \<le> 21"
    by (rule decimal_length_le) simp
  with False have "number_string x = decimal (shortest x)"
    by (simp add: number_string_def Let_def)
  moreover have "to_double (shortest x) = Num x"
    unfolding shortest_def using x(3) by (rule to_double_shortest_from)
  ultimately show ?thesis
    using v(1) by blast
qed

lemma plain_line_small: "0 \<le> n \<Longrightarrow> n < 2 ^ 53 \<Longrightarrow> plain_line n"
proof -
  assume n: "0 \<le> n" "n < 2 ^ 53"
  have "(2::int) ^ 53 < 10 ^ 21" by simp
  with n show ?thesis
    by (simp add: plain_line_def is_double_def to_double_small)
qed

lemma number_string_small: "n < 2 ^ 53 \<Longrightarrow> number_string n = decimal n"
  by (simp add: number_string_def)

section \<open>The pattern of the fragment and its pieces\<close>

lemma digits_no_dash: "list_all is_digit ds \<Longrightarrow> CHR ''-'' \<notin> set ds"
  using not_digit_dash by (auto simp: list_all_iff)

lemma takeWhile_digits_end: "list_all is_digit ds \<Longrightarrow> takeWhile is_digit ds = ds"
  by (simp add: list_all_iff)

lemma dropWhile_digits_end: "list_all is_digit ds \<Longrightarrow> dropWhile is_digit ds = []"
  by (simp add: list_all_iff)

lemma takeWhile_digits_dash:
  "list_all is_digit ds \<Longrightarrow> takeWhile is_digit (ds @ CHR ''-'' # es) = ds"
  by (simp add: list_all_iff takeWhile_tail not_digit_dash)

lemma dropWhile_digits_dash:
  "list_all is_digit ds \<Longrightarrow> dropWhile is_digit (ds @ CHR ''-'' # es) = CHR ''-'' # es"
  by (simp add: list_all_iff dropWhile_append2 not_digit_dash)

lemma hash_test_single:
  "ds \<noteq> [] \<Longrightarrow> list_all is_digit ds \<Longrightarrow> hash_test (''#L'' @ ds)"
  by (simp add: hash_test_def takeWhile_digits_end dropWhile_digits_end)

lemma hash_test_range:
  "ds1 \<noteq> [] \<Longrightarrow> list_all is_digit ds1 \<Longrightarrow> ds2 \<noteq> [] \<Longrightarrow> list_all is_digit ds2 \<Longrightarrow>
   hash_test (''#L'' @ ds1 @ ''-'' @ ds2)"
  by (simp add: hash_test_def takeWhile_digits_dash dropWhile_digits_dash)

lemma take2_eq: "take 2 h = [a, b] \<Longrightarrow> h = a # b # drop 2 h"
  by (cases h; cases "tl h") (auto simp: numeral_2_eq_2)

lemma hash_test_shape:
  assumes "hash_test h"
  shows "(\<exists>ds. ds \<noteq> [] \<and> list_all is_digit ds \<and> h = ''#L'' @ ds)
       \<or> (\<exists>ds1 ds2. ds1 \<noteq> [] \<and> list_all is_digit ds1 \<and> ds2 \<noteq> [] \<and> list_all is_digit ds2
            \<and> h = ''#L'' @ ds1 @ ''-'' @ ds2)"
proof -
  define rest where "rest = drop 2 h"
  define ds where "ds = takeWhile is_digit rest"
  define r where "r = dropWhile is_digit rest"
  from assms have h: "h = ''#L'' @ rest"
    unfolding rest_def hash_test_def using take2_eq [of h "CHR ''#''" "CHR ''L''"] by simp
  from assms have ds: "ds \<noteq> []"
    and r: "r = [] \<or> (hd r = CHR ''-'' \<and> tl r \<noteq> [] \<and> list_all is_digit (tl r))"
    unfolding hash_test_def ds_def r_def rest_def by (simp_all add: Let_def)
  have split: "rest = ds @ r"
    unfolding ds_def r_def by simp
  have dsd: "list_all is_digit ds"
    unfolding ds_def list_all_iff by (auto dest: set_takeWhileD)
  show ?thesis
  proof (cases "r = []")
    case True
    with h split ds dsd show ?thesis by auto
  next
    case False
    with r have "hd r = CHR ''-''" "tl r \<noteq> []" "list_all is_digit (tl r)" by auto
    moreover from False have "r = hd r # tl r" by simp
    ultimately have "r = ''-'' @ tl r" by simp
    with h split ds dsd \<open>tl r \<noteq> []\<close> \<open>list_all is_digit (tl r)\<close> show ?thesis
      by (intro disjI2 exI [of _ ds] exI [of _ "tl r"]) simp
  qed
qed

lemma split_sep_none: "sep \<notin> set s \<Longrightarrow> split_sep sep s = [s]"
  by (induction s) auto

lemma split_sep_first:
  "sep \<notin> set s \<Longrightarrow> split_sep sep (s @ sep # r) = s # split_sep sep r"
  by (induction s) auto

lemma Number_str_digits:
  "ds \<noteq> [] \<Longrightarrow> list_all is_digit ds \<Longrightarrow> Number_str ds = to_double (dec_value ds)"
  by (simp add: Number_str_def)

lemma Number_str_safe:
  "ds \<noteq> [] \<Longrightarrow> list_all is_digit ds \<Longrightarrow> dec_value ds < 2 ^ 53 \<Longrightarrow>
   Number_str ds = Num (dec_value ds)"
  by (simp add: Number_str_def to_double_small)

lemma not_isNaN_Number_str: "ds \<noteq> [] \<Longrightarrow> list_all is_digit ds \<Longrightarrow> \<not> isNaN (Number_str ds)"
  by (simp add: Number_str_def not_isNaN_to_double)

lemma nonneg_line_Number_str:
  "ds \<noteq> [] \<Longrightarrow> list_all is_digit ds \<Longrightarrow> nonneg_line (Number_str ds)"
  by (simp add: Number_str_def nonneg_line_to_double dec_value_nonneg)

lemma useState_init_single:
  assumes "ds \<noteq> []" "list_all is_digit ds"
  shows "useState_init (''#L'' @ ds) = (Number_str ds, Number_str ds)"
  using assms hash_test_single [OF assms]
  by (simp add: useState_init_def split_sep_none digits_no_dash nth_js_def Let_def)

lemma useState_init_range:
  assumes "ds1 \<noteq> []" "list_all is_digit ds1" "ds2 \<noteq> []" "list_all is_digit ds2"
  shows "useState_init (''#L'' @ ds1 @ ''-'' @ ds2) = (Number_str ds1, Number_str ds2)"
  using assms hash_test_range [OF assms] not_isNaN_Number_str [OF assms(3,4)]
  by (simp add: useState_init_def split_sep_first split_sep_none digits_no_dash
      nth_js_def Let_def)

lemma useState_init_no_match: "\<not> hash_test h \<Longrightarrow> useState_init h = (Num (- 1), Num (- 1))"
  by (simp add: useState_init_def)

lemma Number_only_on_digits:
  assumes "hash_test h" and "p \<in> set (split_sep CHR ''-'' (drop 2 h))"
  shows "p \<noteq> [] \<and> list_all is_digit p"
  using hash_test_shape [OF assms(1)] assms(2)
  by (auto simp: split_sep_first split_sep_none digits_no_dash)

section \<open>The round trip, the invariant and \<^verbatim>\<open>parseInt\<close> on digits\<close>

lemma Number_str_number_string: "plain_line x \<Longrightarrow> Number_str (number_string x) = Num x"
proof -
  assume "plain_line x"
  then obtain v where v: "0 \<le> v" "number_string x = decimal v" "to_double v = Num x"
    using plain_line_string by blast
  then show ?thesis
    by (simp add: Number_str_def decimal_nonempty decimal_all_digits dec_value_decimal)
qed

lemma number_string_digits:
  "plain_line x \<Longrightarrow> number_string x \<noteq> [] \<and> list_all is_digit (number_string x)"
proof -
  assume "plain_line x"
  then obtain v where v: "0 \<le> v" "number_string x = decimal v"
    using plain_line_string by blast
  then show ?thesis
    by (simp add: decimal_nonempty decimal_all_digits)
qed

lemma useState_init_number_string:
  assumes "plain_line x"
  shows "useState_init (''#L'' @ number_string x) = (Num x, Num x)"
  using number_string_digits [OF assms] Number_str_number_string [OF assms]
  by (simp add: useState_init_single del: append.simps)

lemma useState_init_number_string_range:
  assumes "plain_line x" "plain_line y"
  shows "useState_init (''#L'' @ number_string x @ ''-'' @ number_string y) = (Num x, Num y)"
  using number_string_digits [OF assms(1)] number_string_digits [OF assms(2)]
    Number_str_number_string [OF assms(1)] Number_str_number_string [OF assms(2)]
  by (simp add: useState_init_range del: append.simps)

lemma roundtrip_once:
  assumes "plain_line a" "plain_line b"
  shows "useState_init (hash_effect (Num a, Num b)) = (Num (min a b), Num (max a b))"
proof (cases "a = b")
  case True
  from assms have "0 \<le> a" by (simp add: plain_line_def is_double_def)
  with True have "hash_effect (Num a, Num b) = ''#L'' @ number_string a"
    by (simp add: hash_effect_def)
  with True useState_init_number_string [OF assms(1)] show ?thesis
    by simp
next
  case False
  from assms have nonneg: "0 \<le> a" "0 \<le> b" by (simp_all add: plain_line_def is_double_def)
  then have "0 \<le> min a b" "0 \<le> max a b" by simp_all
  with False nonneg have "hash_effect (Num a, Num b)
      = ''#L'' @ number_string (min a b) @ ''-'' @ number_string (max a b)"
    by (simp add: hash_effect_def Let_def min_less_iff_disj)
  moreover from assms have "plain_line (min a b)" "plain_line (max a b)"
    by (simp_all add: min_def max_def)
  ultimately show ?thesis
    using useState_init_number_string_range [of "min a b" "max a b"] by simp
qed

lemma code_invariant_init: "code_invariant (useState_init h)"
proof (cases "hash_test h")
  case True
  from hash_test_shape [OF True] show ?thesis
    by (auto simp: useState_init_single useState_init_range code_invariant_def
        nonneg_line_Number_str simp del: append.simps)
next
  case False
  then show ?thesis
    by (simp add: useState_init_no_match code_invariant_def)
qed

lemma code_invariant_toggle:
  "code_invariant s \<Longrightarrow> positive_line n \<Longrightarrow> code_invariant (toggleSelected s n e)"
  by (cases n; cases s; cases "fst s"; cases "snd s")
    (auto simp: code_invariant_def toggleSelected_def)

lemma spec_invariant_toggle:
  "spec_invariant s \<Longrightarrow> positive_line n \<Longrightarrow> spec_invariant (toggleSelected s n e)"
  by (cases n; cases s; cases "fst s"; cases "snd s")
    (auto simp: spec_invariant_def toggleSelected_def)

lemma code_invariant_toggle_all:
  "code_invariant s \<Longrightarrow> positive_calls cs \<Longrightarrow> code_invariant (toggle_all s cs)"
proof (induction cs arbitrary: s)
  case Nil
  then show ?case by simp
next
  case (Cons c cs)
  obtain n e where c: "c = (n, e)" by (cases c)
  from Cons.prems c have "positive_line n" "positive_calls cs"
    by (simp_all add: positive_calls_def)
  with Cons.IH [of "toggleSelected s n e"] Cons.prems(1) c show ?case
    by (simp add: code_invariant_toggle)
qed

lemma spec_invariant_toggle_all:
  "spec_invariant s \<Longrightarrow> positive_calls cs \<Longrightarrow> spec_invariant (toggle_all s cs)"
proof (induction cs arbitrary: s)
  case Nil
  then show ?case by simp
next
  case (Cons c cs)
  obtain n e where c: "c = (n, e)" by (cases c)
  from Cons.prems c have "positive_line n" "positive_calls cs"
    by (simp_all add: positive_calls_def)
  with Cons.IH [of "toggleSelected s n e"] Cons.prems(1) c show ?case
    by (simp add: spec_invariant_toggle)
qed

lemma radix_digit_10: "is_digit c \<Longrightarrow> radix_digit 10 c = Some (digit_val c)"
  by (auto simp: radix_digit_def is_digit_def digit_val_def Let_def)

lemma not_space_digit: "is_digit c \<Longrightarrow> \<not> is_space c"
  by (auto simp: is_digit_def is_space_def)

lemma foldl_radix_10:
  "list_all is_digit ds \<Longrightarrow>
   foldl (\<lambda>acc c. 10 * acc + the (radix_digit 10 c)) k ds
     = foldl (\<lambda>acc c. 10 * acc + digit_val c) k ds"
  by (induction ds arbitrary: k) (simp_all add: radix_digit_10)

lemma parseInt_digits:
  assumes "ds \<noteq> []" "list_all is_digit ds"
  shows "parseInt ds = to_double (dec_value ds)"
proof -
  obtain c cs where ds: "ds = c # cs" using assms(1) by (cases ds) auto
  with assms(2) have c: "is_digit c" by simp
  have S: "dropWhile is_space ds = ds"
    using ds c by (simp add: not_space_digit)
  have nosign: "hd ds \<noteq> CHR ''-''" "hd ds \<noteq> CHR ''+''"
    using ds c by (auto simp: is_digit_def)
  have nohex: "take 2 ds \<noteq> ''0x''" "take 2 ds \<noteq> ''0X''"
    using ds assms(2) by (cases cs; auto simp: is_digit_def)+
  have Z: "takeWhile (\<lambda>c. \<exists>y. radix_digit 10 c = Some y) ds = ds"
    using assms(2) by (simp add: list_all_iff radix_digit_10)
  show ?thesis
    using assms S nosign nohex
    by (simp add: parseInt_def Let_def Z foldl_radix_10 dec_value_def)
qed

lemma parseInt_not_Undefined: "parseInt s \<noteq> Undefined"
proof -
  have "to_double n \<noteq> Undefined" for n
    by (simp add: to_double_def Let_def)
  moreover have "js_negate (to_double n) \<noteq> Undefined" for n
    by (simp add: to_double_def Let_def)
  ultimately show ?thesis
    by (simp add: parseInt_def Let_def)
qed

section \<open>The model on concrete fragments and selections\<close>

lemma hash_effect_examples:
  "hash_effect (Num 120, Num 1005) = ''#L120-1005''"
  "hash_effect (Num 1005, Num 120) = ''#L120-1005''"
  "hash_effect (Num 37, Num 37) = ''#L37''"
  "hash_effect (Num 4, Num 2) = ''#L2-4''"
  "hash_effect (Num (- 1), Num (- 1)) = ''''"
  by code_simp+

lemma useState_init_examples:
  "useState_init ''#L5'' = (Num 5, Num 5)"
  "useState_init ''#L3-9'' = (Num 3, Num 9)"
  "useState_init ''#L120-1005'' = (Num 120, Num 1005)"
  "useState_init ''#L007'' = (Num 7, Num 7)"
  "useState_init ''#Lxyz'' = (Num (- 1), Num (- 1))"
  "useState_init '''' = (Num (- 1), Num (- 1))"
  "useState_init ''#L9007199254740993'' = (Num 9007199254740992, Num 9007199254740992)"
  by code_simp+

lemma useState_init_ten_21:
  "useState_init ''#L1000000000000000000000''
     = (Num 1000000000000000000000, Num 1000000000000000000000)"
  by code_simp

lemma hash_effect_ten_21:
  "hash_effect (Num 1000000000000000000000, Num 1000000000000000000000) = ''#L1e+21''"
  by code_simp

lemma useState_init_exponent: "useState_init ''#L1e+21'' = (Num (- 1), Num (- 1))"
  by code_simp

lemma hash_effect_two_60:
  "hash_effect (Num 1152921504606846976, Num 1152921504606846976) = ''#L1152921504606847000''"
  by code_simp

lemma plain_line_two_60: "plain_line 1152921504606846976"
  by code_simp

lemma useState_init_overflow:
  "useState_init (''#L'' @ replicate 310 CHR ''9'') = (PosInfinity, PosInfinity)"
  by code_simp

lemma mount_examples:
  "mount ''#Lfoo'' = \<lparr>cur_selected = (Num (- 1), Num (- 1)), cur_hash = ''''\<rparr>"
  "mount ''#L9-3'' = \<lparr>cur_selected = (Num 9, Num 3), cur_hash = ''#L3-9''\<rparr>"
  "mount ''#L1005-120'' = \<lparr>cur_selected = (Num 1005, Num 120), cur_hash = ''#L120-1005''\<rparr>"
  "mount ''#L007'' = \<lparr>cur_selected = (Num 7, Num 7), cur_hash = ''#L7''\<rparr>"
  by code_simp+

lemma parseInt_examples:
  "parseInt ''12'' = Num 12"
  "parseInt ''1005'' = Num 1005"
  "parseInt ''9007199254740993'' = Num 9007199254740992"
  "parseInt ''abc'' = NaN"
  "parseInt '''' = NaN"
  by code_simp+

section \<open>The toggle policy\<close>

text \<open>
  C1. Against the current selection \<open>(a, b)\<close> and the inputs \<open>line\<close> and \<open>shiftHeld\<close>,
  \<^verbatim>\<open>toggleSelected\<close> follows the three-case policy in guard order: the collapse case
  \<open>a = b = line\<close> sets \<open>(-1, -1)\<close>; otherwise, the replace case (\<open>a = -1\<close> or no shift)
  sets \<open>(line, line)\<close>; otherwise the selection becomes \<open>(a, line)\<close>, with the anchor
  \<open>a\<close> kept. Exactly one of the three cases applies, for every selection of numbers and
  every line number.
\<close>

theorem toggleSelected_three_cases:
  "toggleSelected (Num a, Num b) (Num line) \<lparr>target = t, shiftKey = shiftHeld\<rparr>
     = sel_of (toggle_spec (a, b) line shiftHeld)
   \<and> (collapse_case a b line shiftHeld \<longrightarrow>
        toggleSelected (Num a, Num b) (Num line) \<lparr>target = t, shiftKey = shiftHeld\<rparr>
          = (Num (- 1), Num (- 1)))
   \<and> (replace_case a b line shiftHeld \<longrightarrow>
        toggleSelected (Num a, Num b) (Num line) \<lparr>target = t, shiftKey = shiftHeld\<rparr>
          = (Num line, Num line))
   \<and> (extend_case a b line shiftHeld \<longrightarrow>
        toggleSelected (Num a, Num b) (Num line) \<lparr>target = t, shiftKey = shiftHeld\<rparr>
          = (Num a, Num line))
   \<and> (of_bool (collapse_case a b line shiftHeld) + of_bool (replace_case a b line shiftHeld)
        + of_bool (extend_case a b line shiftHeld) = (1::nat))"
  by (auto simp: toggleSelected_def toggle_spec_def sel_of_def collapse_case_def
      replace_case_def extend_case_def)

theorem toggleSelected_three_cases_witness:
  "collapse_case 7 7 7 False
   \<and> toggleSelected (Num 7, Num 7) (Num 7) \<lparr>target = None, shiftKey = False\<rparr>
       = (Num (- 1), Num (- 1))
   \<and> replace_case 4 2 4 False
   \<and> toggleSelected (Num 4, Num 2) (Num 4) \<lparr>target = None, shiftKey = False\<rparr>
       = (Num 4, Num 4)
   \<and> extend_case 4 4 2 True
   \<and> toggleSelected (Num 4, Num 4) (Num 2) \<lparr>target = None, shiftKey = True\<rparr>
       = (Num 4, Num 2)"
  using toggleSelected_three_cases [of 7 7 7 None False]
    toggleSelected_three_cases [of 4 2 4 None False]
    toggleSelected_three_cases [of 4 4 2 None True]
  by (simp add: collapse_case_def replace_case_def extend_case_def toggle_spec_def sel_of_def)

section \<open>The fragment written for a selection\<close>

text \<open>
  C2. For every selection \<open>(a, b)\<close> of numbers the effect writes the empty fragment when
  \<open>a = -1\<close>; otherwise, with \<open>start = min a b\<close> and \<open>end = max a b\<close>, it writes
  \<^verbatim>\<open>#L<start>\<close> when \<open>start = end\<close> and \<^verbatim>\<open>#L<start>-<end>\<close> when they differ. A
  number from 0 below \<open>2 ^ 53\<close> is written as its decimal numeral: digits only, with its
  value, without a leading zero; so \<open>(1005, 120)\<close> gives \<^verbatim>\<open>#L120-1005\<close>. The minimum and
  the maximum are taken for the fragment only: the selection that is stored after a
  toggle is the pair that \<^verbatim>\<open>toggleSelected\<close> sets, and an extension to a line above the
  anchor is stored with the anchor first.
\<close>

theorem hash_effect_fragment:
  "hash_effect (Num a, Num b) =
     (if a = - 1 then ''''
      else if min a b = max a b then ''#L'' @ ToString (Num (min a b))
      else ''#L'' @ ToString (Num (min a b)) @ ''-'' @ ToString (Num (max a b)))
   \<and> (0 \<le> n \<and> n < 2 ^ 53 \<longrightarrow>
        list_all is_digit (ToString (Num n)) \<and> dec_value (ToString (Num n)) = n
        \<and> (0 < n \<longrightarrow> hd (ToString (Num n)) \<noteq> CHR ''0''))
   \<and> hash_effect (Num 120, Num 1005) = ''#L120-1005''
   \<and> hash_effect (Num 1005, Num 120) = ''#L120-1005''
   \<and> hash_effect (Num 37, Num 37) = ''#L37''
   \<and> cur_hash (toggle_view v (Num line) e) = hash_effect (cur_selected (toggle_view v (Num line) e))
   \<and> cur_selected (toggle_view v (Num line) e) = toggleSelected (cur_selected v) (Num line) e
   \<and> (a \<noteq> - 1 \<and> a \<noteq> line \<longrightarrow>
        toggleSelected (Num a, Num a) (Num line) \<lparr>target = t, shiftKey = True\<rparr>
          = (Num a, Num line))"
proof -
  have shape: "hash_effect (Num a, Num b) =
     (if a = - 1 then ''''
      else if min a b = max a b then ''#L'' @ ToString (Num (min a b))
      else ''#L'' @ ToString (Num (min a b)) @ ''-'' @ ToString (Num (max a b)))"
    by (auto simp: hash_effect_def Let_def min_def max_def)
  have numeral: "0 \<le> n \<and> n < 2 ^ 53 \<longrightarrow>
        list_all is_digit (ToString (Num n)) \<and> dec_value (ToString (Num n)) = n
        \<and> (0 < n \<longrightarrow> hd (ToString (Num n)) \<noteq> CHR ''0'')"
    by (simp add: number_string_small decimal_all_digits dec_value_decimal decimal_hd_not_zero)
  have written: "cur_hash (toggle_view v (Num line) e)
        = hash_effect (cur_selected (toggle_view v (Num line) e))"
    by (simp add: toggle_view_def Let_def)
  have stored: "cur_selected (toggle_view v (Num line) e)
        = toggleSelected (cur_selected v) (Num line) e"
    by (simp add: toggle_view_def Let_def)
  have extended: "a \<noteq> - 1 \<and> a \<noteq> line \<longrightarrow>
        toggleSelected (Num a, Num a) (Num line) \<lparr>target = t, shiftKey = True\<rparr>
          = (Num a, Num line)"
    by (simp add: toggleSelected_def)
  from shape numeral hash_effect_examples(1-3) written stored extended show ?thesis
    by (intro conjI) assumption+
qed

theorem hash_effect_fragment_witness:
  "list_all is_digit (ToString (Num 1005)) \<and> dec_value (ToString (Num 1005)) = 1005
   \<and> hd (ToString (Num 1005)) \<noteq> CHR ''0''
   \<and> toggleSelected (Num 4, Num 4) (Num 2) \<lparr>target = None, shiftKey = True\<rparr> = (Num 4, Num 2)
   \<and> hash_effect (Num 4, Num 2) = ''#L'' @ ToString (Num 2) @ ''-'' @ ToString (Num 4)
   \<and> hash_effect (Num 1005, Num 120) = ''#L120-1005''"
  using hash_effect_fragment [of 4 2 1005 undefined 2 undefined None]
    hash_effect_fragment [of 4 4 1005 undefined 2 undefined None]
  by simp

section \<open>The selection read from a fragment\<close>

text \<open>
  C3. A fragment \<^verbatim>\<open>#L<start>\<close> gives the initial selection \<open>(start, start)\<close> and a
  fragment \<^verbatim>\<open>#L<start>-<end>\<close> gives \<open>(start, end)\<close>, where \<open>start\<close> and \<open>end\<close> are
  non-empty strings of digits, read as \<^verbatim>\<open>Number\<close> reads them: the decimal value when it
  is below \<open>2 ^ 53\<close>, and the nearest double in general. These are exactly the
  fragments that pass the test of the pattern. Every other fragment gives \<open>(-1, -1)\<close>.
  The initialiser has no other outcome: there is no error for a fragment that does not
  match. So \<^verbatim>\<open>#L5\<close> gives \<open>(5, 5)\<close>, \<^verbatim>\<open>#L3-9\<close> gives \<open>(3, 9)\<close>, \<^verbatim>\<open>#L120-1005\<close> gives
  \<open>(120, 1005)\<close>, and \<^verbatim>\<open>#Lxyz\<close> and the empty fragment give \<open>(-1, -1)\<close>.
\<close>

theorem useState_init_fragment:
  "(ds \<noteq> [] \<and> list_all is_digit ds \<longrightarrow>
      useState_init (''#L'' @ ds) = (Number_str ds, Number_str ds)
      \<and> Number_str ds = to_double (dec_value ds))
   \<and> (ds \<noteq> [] \<and> list_all is_digit ds \<and> dec_value ds < 2 ^ 53 \<longrightarrow>
      useState_init (''#L'' @ ds) = (Num (dec_value ds), Num (dec_value ds)))
   \<and> (ds1 \<noteq> [] \<and> list_all is_digit ds1 \<and> ds2 \<noteq> [] \<and> list_all is_digit ds2 \<longrightarrow>
      useState_init (''#L'' @ ds1 @ ''-'' @ ds2) = (Number_str ds1, Number_str ds2))
   \<and> (ds1 \<noteq> [] \<and> list_all is_digit ds1 \<and> ds2 \<noteq> [] \<and> list_all is_digit ds2
        \<and> dec_value ds1 < 2 ^ 53 \<and> dec_value ds2 < 2 ^ 53 \<longrightarrow>
      useState_init (''#L'' @ ds1 @ ''-'' @ ds2) = (Num (dec_value ds1), Num (dec_value ds2)))
   \<and> (hash_test h \<longleftrightarrow>
        (\<exists>d. d \<noteq> [] \<and> list_all is_digit d \<and> h = ''#L'' @ d)
        \<or> (\<exists>d1 d2. d1 \<noteq> [] \<and> list_all is_digit d1 \<and> d2 \<noteq> [] \<and> list_all is_digit d2
              \<and> h = ''#L'' @ d1 @ ''-'' @ d2))
   \<and> (\<not> hash_test h \<longrightarrow> useState_init h = (Num (- 1), Num (- 1)))
   \<and> useState_init ''#L5'' = (Num 5, Num 5)
   \<and> useState_init ''#L3-9'' = (Num 3, Num 9)
   \<and> useState_init ''#L120-1005'' = (Num 120, Num 1005)
   \<and> useState_init ''#Lxyz'' = (Num (- 1), Num (- 1))
   \<and> useState_init '''' = (Num (- 1), Num (- 1))
   \<and> useState_init ''#L9007199254740993'' = (Num 9007199254740992, Num 9007199254740992)"
proof -
  have single: "ds \<noteq> [] \<and> list_all is_digit ds \<longrightarrow>
      useState_init (''#L'' @ ds) = (Number_str ds, Number_str ds)
      \<and> Number_str ds = to_double (dec_value ds)"
    using useState_init_single [of ds] Number_str_digits [of ds] by blast
  have single_safe: "ds \<noteq> [] \<and> list_all is_digit ds \<and> dec_value ds < 2 ^ 53 \<longrightarrow>
      useState_init (''#L'' @ ds) = (Num (dec_value ds), Num (dec_value ds))"
    using useState_init_single [of ds] Number_str_safe [of ds] by auto
  have range: "ds1 \<noteq> [] \<and> list_all is_digit ds1 \<and> ds2 \<noteq> [] \<and> list_all is_digit ds2 \<longrightarrow>
      useState_init (''#L'' @ ds1 @ ''-'' @ ds2) = (Number_str ds1, Number_str ds2)"
    using useState_init_range [of ds1 ds2] by blast
  have range_safe: "ds1 \<noteq> [] \<and> list_all is_digit ds1 \<and> ds2 \<noteq> [] \<and> list_all is_digit ds2
        \<and> dec_value ds1 < 2 ^ 53 \<and> dec_value ds2 < 2 ^ 53 \<longrightarrow>
      useState_init (''#L'' @ ds1 @ ''-'' @ ds2) = (Num (dec_value ds1), Num (dec_value ds2))"
    using useState_init_range [of ds1 ds2] Number_str_safe [of ds1] Number_str_safe [of ds2]
    by auto
  have pattern: "hash_test h \<longleftrightarrow>
        (\<exists>d. d \<noteq> [] \<and> list_all is_digit d \<and> h = ''#L'' @ d)
        \<or> (\<exists>d1 d2. d1 \<noteq> [] \<and> list_all is_digit d1 \<and> d2 \<noteq> [] \<and> list_all is_digit d2
              \<and> h = ''#L'' @ d1 @ ''-'' @ d2)"
    using hash_test_shape [of h] hash_test_single hash_test_range by blast
  have other: "\<not> hash_test h \<longrightarrow> useState_init h = (Num (- 1), Num (- 1))"
    using useState_init_no_match [of h] by blast
  from single single_safe range range_safe pattern other
    useState_init_examples(1-3) useState_init_examples(5-7)
  show ?thesis
    by (intro conjI) assumption+
qed

theorem useState_init_fragment_witness:
  "useState_init ''#L1005'' = (Num 1005, Num 1005)
   \<and> useState_init ''#L1005-120'' = (Num 1005, Num 120)
   \<and> \<not> hash_test ''#Lxyz'' \<and> useState_init ''#Lxyz'' = (Num (- 1), Num (- 1))
   \<and> \<not> hash_test '''' \<and> useState_init '''' = (Num (- 1), Num (- 1))"
proof -
  note xyz = useState_init_fragment [of "''1005''" "''1005''" "''120''" "''#Lxyz''"]
  note empty = useState_init_fragment [of "''1005''" "''1005''" "''120''" "''''"]
  have d1: "''1005'' \<noteq> [] \<and> list_all is_digit ''1005'' \<and> dec_value ''1005'' < 2 ^ 53"
    by (simp add: is_digit_def dec_value_def digit_val_def)
  have d2: "''1005'' \<noteq> [] \<and> list_all is_digit ''1005'' \<and> ''120'' \<noteq> []
      \<and> list_all is_digit ''120'' \<and> dec_value ''1005'' < 2 ^ 53 \<and> dec_value ''120'' < 2 ^ 53"
    by (simp add: is_digit_def dec_value_def digit_val_def)
  have v: "dec_value ''1005'' = 1005" "dec_value ''120'' = 120"
    by (simp_all add: dec_value_def digit_val_def)
  have n1: "\<not> hash_test ''#Lxyz''" and n2: "\<not> hash_test ''''"
    by (simp_all add: hash_test_def is_digit_def)
  from xyz [THEN conjunct2, THEN conjunct1, THEN mp, OF d1] v
  have single: "useState_init ''#L1005'' = (Num 1005, Num 1005)"
    by simp
  from xyz [THEN conjunct2, THEN conjunct2, THEN conjunct2, THEN conjunct1, THEN mp, OF d2] v
  have range: "useState_init ''#L1005-120'' = (Num 1005, Num 120)"
    by simp
  note other = conjunct2 [THEN conjunct2, THEN conjunct2, THEN conjunct2, THEN conjunct2,
      THEN conjunct1, THEN mp]
  from xyz [THEN other, OF n1] have o1: "useState_init ''#Lxyz'' = (Num (- 1), Num (- 1))" .
  from empty [THEN other, OF n2] have o2: "useState_init '''' = (Num (- 1), Num (- 1))" .
  from single range n1 o1 n2 o2 show ?thesis
    by (intro conjI) assumption+
qed

section \<open>A click, a shift-click and a click\<close>

text \<open>
  C4. From the empty selection, a click on line 4 gives \<open>(4, 4)\<close> and the fragment
  \<^verbatim>\<open>#L4\<close>; a shift-click on line 2 then gives \<open>(4, 2)\<close> and \<^verbatim>\<open>#L2-4\<close>; a click on
  line 4 without shift then gives \<open>(4, 4)\<close> and \<^verbatim>\<open>#L4\<close> again: the click on an end of
  the range replaces the selection and does not clear it.
\<close>

theorem scenario_click_shift_click_click:
  "mount '''' = \<lparr>cur_selected = (Num (- 1), Num (- 1)), cur_hash = ''''\<rparr>
   \<and> toggle_view (mount '''') (Num 4) \<lparr>target = None, shiftKey = False\<rparr>
       = \<lparr>cur_selected = (Num 4, Num 4), cur_hash = ''#L4''\<rparr>
   \<and> toggle_view \<lparr>cur_selected = (Num 4, Num 4), cur_hash = ''#L4''\<rparr> (Num 2)
         \<lparr>target = None, shiftKey = True\<rparr>
       = \<lparr>cur_selected = (Num 4, Num 2), cur_hash = ''#L2-4''\<rparr>
   \<and> toggle_view \<lparr>cur_selected = (Num 4, Num 2), cur_hash = ''#L2-4''\<rparr> (Num 4)
         \<lparr>target = None, shiftKey = False\<rparr>
       = \<lparr>cur_selected = (Num 4, Num 4), cur_hash = ''#L4''\<rparr>"
  by (simp add: mount_def toggle_view_def toggleSelected_def hash_effect_def useState_init_def
      hash_test_def number_string_def decimal.simps digit_char_simps)

section \<open>Writing a selection and reading it back\<close>

text \<open>
  C5, as the specification states it, fails: the fragment \<^verbatim>\<open>#L1000000000000000000000\<close>
  initialises the selection to \<open>(10 ^ 21, 10 ^ 21)\<close>; the fragment written for that
  selection is \<^verbatim>\<open>#L1e+21\<close>, which does not match the pattern, so reading it back gives
  \<open>(-1, -1)\<close> and not \<open>(10 ^ 21, 10 ^ 21)\<close>.
\<close>

theorem fragment_roundtrip_counterexample:
  "useState_init ''#L1000000000000000000000''
     = (Num 1000000000000000000000, Num 1000000000000000000000)
   \<and> hash_effect (Num 1000000000000000000000, Num 1000000000000000000000) = ''#L1e+21''
   \<and> useState_init (hash_effect (Num 1000000000000000000000, Num 1000000000000000000000))
     = (Num (- 1), Num (- 1))
   \<and> useState_init (hash_effect (Num 1000000000000000000000, Num 1000000000000000000000))
     \<noteq> (Num (min 1000000000000000000000 1000000000000000000000),
         Num (min 1000000000000000000000 1000000000000000000000))"
  by (simp add: useState_init_ten_21 hash_effect_ten_21 useState_init_exponent)

text \<open>
  C5, amended. For every selection \<open>(a, b)\<close> of line numbers from 0 below \<open>10 ^ 21\<close>
  (doubles with an integer value; every integer from 0 below \<open>2 ^ 53\<close> is one), reading
  back the fragment written for it gives \<open>(min a b, min a b)\<close> when \<open>a = b\<close> and
  \<open>(min a b, max a b)\<close> otherwise; writing and reading a second time changes nothing.
\<close>

theorem fragment_roundtrip:
  assumes "plain_line a" and "plain_line b"
  shows "useState_init (hash_effect (Num a, Num b))
           = (if a = b then (Num (min a b), Num (min a b)) else (Num (min a b), Num (max a b)))
         \<and> useState_init (hash_effect (useState_init (hash_effect (Num a, Num b))))
           = useState_init (hash_effect (Num a, Num b))
         \<and> (0 \<le> n \<and> n < 2 ^ 53 \<longrightarrow> plain_line n)"
proof -
  have once: "useState_init (hash_effect (Num a, Num b)) = (Num (min a b), Num (max a b))"
    using assms by (rule roundtrip_once)
  from assms have "plain_line (min a b)" "plain_line (max a b)"
    by (simp_all add: min_def max_def)
  then have "useState_init (hash_effect (Num (min a b), Num (max a b)))
      = (Num (min (min a b) (max a b)), Num (max (min a b) (max a b)))"
    by (rule roundtrip_once)
  then have twice: "useState_init (hash_effect (Num (min a b), Num (max a b)))
      = (Num (min a b), Num (max a b))"
    by simp
  have small: "0 \<le> n \<and> n < 2 ^ 53 \<longrightarrow> plain_line n"
    using plain_line_small [of n] by blast
  show ?thesis
    using once twice small by simp
qed

theorem fragment_roundtrip_witness:
  "plain_line 1005 \<and> plain_line 120
   \<and> useState_init (hash_effect (Num 1005, Num 120)) = (Num 120, Num 1005)
   \<and> useState_init (hash_effect (useState_init (hash_effect (Num 1005, Num 120))))
       = useState_init (hash_effect (Num 1005, Num 120))
   \<and> plain_line 1152921504606846976
   \<and> hash_effect (Num 1152921504606846976, Num 1152921504606846976) = ''#L1152921504606847000''
   \<and> useState_init (hash_effect (Num 1152921504606846976, Num 1152921504606846976))
       = (Num 1152921504606846976, Num 1152921504606846976)"
proof -
  have a: "plain_line 1005" and b: "plain_line 120"
    by (simp_all add: plain_line_small)
  note r = fragment_roundtrip [OF a b]
  from r have r1: "useState_init (hash_effect (Num 1005, Num 120)) = (Num 120, Num 1005)"
    by simp
  from r [THEN conjunct2, THEN conjunct1]
  have r2: "useState_init (hash_effect (useState_init (hash_effect (Num 1005, Num 120))))
      = useState_init (hash_effect (Num 1005, Num 120))" .
  note c = plain_line_two_60
  from fragment_roundtrip [OF c c]
  have r3: "useState_init (hash_effect (Num 1152921504606846976, Num 1152921504606846976))
      = (Num 1152921504606846976, Num 1152921504606846976)"
    by simp
  from a b r1 r2 c hash_effect_two_60 r3 show ?thesis
    by (intro conjI) assumption+
qed

section \<open>The invariant of the selection\<close>

text \<open>
  C7, as the specification states it, fails: the fragment \<^verbatim>\<open>#L0\<close> matches the pattern
  and initialises the selection to \<open>(0, 0)\<close>, and 0 is not a positive line number.
\<close>

theorem selection_invariant_counterexample:
  "positive_calls []
   \<and> toggle_all (useState_init ''#L0'') [] = (Num 0, Num 0)
   \<and> \<not> spec_invariant (toggle_all (useState_init ''#L0'') [])"
  by (simp add: positive_calls_def useState_init_def hash_test_def is_digit_def nth_js_def
      Number_str_def to_double_def dec_value_def digit_val_def spec_invariant_def Let_def)

text \<open>
  C7, amended. After initialisation and after every toggle with a positive line number,
  the selection is \<open>(-1, -1)\<close> or a pair of numbers that are not negative, in either
  order: integers from 0 on, or \<^verbatim>\<open>Infinity\<close>. Zero and \<^verbatim>\<open>Infinity\<close> come from the
  fragment only (\<^verbatim>\<open>#L0\<close>; a number of 310 digits): from a selection of positive line
  numbers, toggles with positive line numbers give \<open>(-1, -1)\<close> or positive line numbers
  again.
\<close>

theorem selection_invariant:
  "(positive_calls cs \<longrightarrow> code_invariant (toggle_all (useState_init h) cs))
   \<and> (spec_invariant s \<and> positive_calls cs \<longrightarrow> spec_invariant (toggle_all s cs))
   \<and> useState_init ''#L0'' = (Num 0, Num 0)
   \<and> useState_init (''#L'' @ replicate 310 CHR ''9'') = (PosInfinity, PosInfinity)"
proof -
  have reach: "positive_calls cs \<longrightarrow> code_invariant (toggle_all (useState_init h) cs)"
    using code_invariant_toggle_all [OF code_invariant_init] by blast
  have keep: "spec_invariant s \<and> positive_calls cs \<longrightarrow> spec_invariant (toggle_all s cs)"
    using spec_invariant_toggle_all by blast
  have zero: "useState_init ''#L0'' = (Num 0, Num 0)"
    by code_simp
  from reach keep zero useState_init_overflow show ?thesis
    by (intro conjI) assumption+
qed

theorem selection_invariant_witness:
  "toggle_all (Num 4, Num 4) [(Num 2, \<lparr>target = None, shiftKey = True\<rparr>)] = (Num 4, Num 2)
   \<and> positive_calls [(Num 2, \<lparr>target = None, shiftKey = True\<rparr>)]
   \<and> spec_invariant (Num 4, Num 4)
   \<and> code_invariant (toggle_all (useState_init ''#L0'') [(Num 2, \<lparr>target = None, shiftKey = True\<rparr>)])
   \<and> spec_invariant (toggle_all (Num 4, Num 4) [(Num 2, \<lparr>target = None, shiftKey = True\<rparr>)])"
proof -
  let ?cs = "[(Num 2, \<lparr>target = None, shiftKey = True\<rparr>)]"
  note t = selection_invariant [of ?cs "''#L0''" "(Num 4, Num 4)"]
  have run: "toggle_all (Num 4, Num 4) ?cs = (Num 4, Num 2)"
    by (simp add: toggleSelected_def)
  have p: "positive_calls ?cs"
    by (simp add: positive_calls_def)
  have s: "spec_invariant (Num 4, Num 4)"
    by (simp add: spec_invariant_def)
  from t [THEN conjunct1, THEN mp, OF p]
  have c: "code_invariant (toggle_all (useState_init ''#L0'') ?cs)" .
  from t [THEN conjunct2, THEN conjunct1, THEN mp, OF conjI [OF s p]]
  have k: "spec_invariant (toggle_all (Num 4, Num 4) ?cs)" .
  from run p s c k show ?thesis
    by (intro conjI) assumption+
qed

section \<open>The highlight\<close>

text \<open>
  C6. Whenever the selection \<open>(a, b)\<close> is not empty, the effect asks the viewer for one
  decoration, of whole lines, with the class \<^verbatim>\<open>highlighted-line\<close>, whose range goes from
  line \<open>min a b\<close> to line \<open>max a b\<close>: the code passes \<open>(a, 1, b, 1)\<close> to the constructor
  of the viewer's range, which puts the two ends in order, so that the stored pair
  \<open>(4, 2)\<close> gives the range from line 2 to line 4. For the empty selection the effect
  makes no call.
\<close>

theorem highlight_range:
  "(a \<noteq> - 1 \<longrightarrow>
      requested_decorations (highlight_effect True True (Num a, Num b))
        = [\<lparr>range_val = \<lparr>startLineNumber = Num (min a b), startColumn = Num 1,
                         endLineNumber = Num (max a b), endColumn = Num 1\<rparr>,
            isWholeLine = True,
            linesDecorationsClassName = ''highlighted-line''\<rparr>])
   \<and> requested_decorations (highlight_effect True True (Num 4, Num 2))
        = [\<lparr>range_val = \<lparr>startLineNumber = Num 2, startColumn = Num 1,
                         endLineNumber = Num 4, endColumn = Num 1\<rparr>,
            isWholeLine = True,
            linesDecorationsClassName = ''highlighted-line''\<rparr>]
   \<and> highlight_effect editor monaco (Num (- 1), Num b) = []"
  by (simp add: highlight_effect_def new_Range_def min_def max_def)

theorem highlight_range_witness:
  "requested_decorations (highlight_effect True True (Num 1005, Num 120))
     = [\<lparr>range_val = \<lparr>startLineNumber = Num 120, startColumn = Num 1,
                      endLineNumber = Num 1005, endColumn = Num 1\<rparr>,
         isWholeLine = True,
         linesDecorationsClassName = ''highlighted-line''\<rparr>]
   \<and> requested_decorations (highlight_effect True True (Num 7, Num 7))
     = [\<lparr>range_val = \<lparr>startLineNumber = Num 7, startColumn = Num 1,
                      endLineNumber = Num 7, endColumn = Num 1\<rparr>,
         isWholeLine = True,
         linesDecorationsClassName = ''highlighted-line''\<rparr>]"
  using highlight_range [of 1005 120] highlight_range [of 7 7]
  by simp

text \<open>
  C8, as the specification states it, fails: for the stored pair \<open>(4, 2)\<close> the scroll
  request is \<^verbatim>\<open>revealLinesInCenterIfOutsideViewport(4, 2)\<close>, which centres the range
  when it is out of view.
\<close>

theorem reveal_range_counterexample:
  "filter is_reveal (highlight_effect True True (Num 4, Num 2))
     = [revealLinesInCenterIfOutsideViewport (Num 4) (Num 2)]
   \<and> centers_if_outside (revealLinesInCenterIfOutsideViewport (Num 4) (Num 2))"
  by (simp add: highlight_effect_def)

text \<open>
  C8, amended. For a non-empty selection \<open>(a, b)\<close> the effect makes one scroll request:
  \<^verbatim>\<open>revealLineInCenterIfOutsideViewport(a)\<close> when \<open>a = b\<close> and
  \<^verbatim>\<open>revealLinesInCenterIfOutsideViewport(a, b)\<close> otherwise, with the lines in stored
  order. Both requests centre their target when it is out of view.
\<close>

theorem reveal_centers_in_both_cases:
  "(a \<noteq> - 1 \<and> a = b \<longrightarrow>
      filter is_reveal (highlight_effect True True (Num a, Num b))
        = [revealLineInCenterIfOutsideViewport (Num a)])
   \<and> (a \<noteq> - 1 \<and> a \<noteq> b \<longrightarrow>
      filter is_reveal (highlight_effect True True (Num a, Num b))
        = [revealLinesInCenterIfOutsideViewport (Num a) (Num b)])
   \<and> list_all centers_if_outside
        (filter is_reveal (highlight_effect editor monaco (Num a, Num b)))"
  by (simp add: highlight_effect_def)

theorem reveal_centers_in_both_cases_witness:
  "filter is_reveal (highlight_effect True True (Num 7, Num 7))
     = [revealLineInCenterIfOutsideViewport (Num 7)]
   \<and> filter is_reveal (highlight_effect True True (Num 4, Num 2))
     = [revealLinesInCenterIfOutsideViewport (Num 4) (Num 2)]
   \<and> list_all centers_if_outside (filter is_reveal (highlight_effect True True (Num 4, Num 2)))"
  using reveal_centers_in_both_cases [of 7 7 True True]
    reveal_centers_in_both_cases [of 4 2 True True]
  by simp

section \<open>Clicks on the gutter\<close>

text \<open>
  C9, as the specification states it, fails: a click on a cell of the gutter whose text is
  \<^verbatim>\<open>abc\<close>, or is empty, calls \<^verbatim>\<open>toggleSelected\<close> with \<^verbatim>\<open>NaN\<close>.
\<close>

theorem handler_counterexample:
  "handler (Some \<lparr>target = Some \<lparr>classList = [''line-numbers''], textContent = ''abc''\<rparr>,
                  shiftKey = False\<rparr>)
     = Some (NaN, \<lparr>target = Some \<lparr>classList = [''line-numbers''], textContent = ''abc''\<rparr>,
                   shiftKey = False\<rparr>)
   \<and> \<not> numeric_text ''abc''
   \<and> handler (Some \<lparr>target = Some \<lparr>classList = [''line-numbers''], textContent = ''''\<rparr>,
                  shiftKey = False\<rparr>)
     = Some (NaN, \<lparr>target = Some \<lparr>classList = [''line-numbers''], textContent = ''''\<rparr>,
                   shiftKey = False\<rparr>)
   \<and> \<not> numeric_text ''''"
  by (simp add: handler_def parseInt_def numeric_text_def is_space_def radix_digit_def)

text \<open>
  C9, amended. The handler calls \<^verbatim>\<open>toggleSelected\<close> exactly when the click has a
  target whose class list contains \<^verbatim>\<open>line-numbers\<close>, and it passes
  \<^verbatim>\<open>parseInt\<close> of the text of the target and the click: for a text that is a
  non-empty string of digits, the decimal value when that is below \<open>2 ^ 53\<close> and the
  nearest double in general, and \<^verbatim>\<open>NaN\<close> when no number can be read from the text. The
  text is not checked before the call.
\<close>

theorem handler_routes_by_class:
  "(handler clk \<noteq> None \<longleftrightarrow>
      (\<exists>c t. clk = Some c \<and> target c = Some t \<and> ''line-numbers'' \<in> set (classList t)))
   \<and> (target c = Some t \<and> ''line-numbers'' \<in> set (classList t) \<longrightarrow>
        handler (Some c) = Some (parseInt (textContent t), c))
   \<and> (target c = Some t \<and> ''line-numbers'' \<in> set (classList t)
        \<and> textContent t \<noteq> [] \<and> list_all is_digit (textContent t)
        \<and> dec_value (textContent t) < 2 ^ 53 \<longrightarrow>
        handler (Some c) = Some (Num (dec_value (textContent t)), c))
   \<and> (target c = Some t \<and> ''line-numbers'' \<in> set (classList t)
        \<and> textContent t \<noteq> [] \<and> list_all is_digit (textContent t) \<longrightarrow>
        handler (Some c) = Some (to_double (dec_value (textContent t)), c))
   \<and> (target c = Some t \<and> ''line-numbers'' \<in> set (classList t)
        \<and> \<not> numeric_text (textContent t) \<longrightarrow>
        handler (Some c) = Some (NaN, c))
   \<and> parseInt ''12'' = Num 12 \<and> parseInt ''1005'' = Num 1005
   \<and> parseInt ''9007199254740993'' = Num 9007199254740992
   \<and> parseInt ''abc'' = NaN \<and> parseInt '''' = NaN"
proof -
  have nan: "\<not> numeric_text s \<Longrightarrow> parseInt s = NaN" for s
    using parseInt_not_Undefined [of s] by (cases "parseInt s") (simp_all add: numeric_text_def)
  have routed: "handler clk \<noteq> None \<longleftrightarrow>
      (\<exists>c t. clk = Some c \<and> target c = Some t \<and> ''line-numbers'' \<in> set (classList t))"
    by (auto simp: handler_def split: option.splits)
  have passed: "target c = Some t \<and> ''line-numbers'' \<in> set (classList t) \<longrightarrow>
        handler (Some c) = Some (parseInt (textContent t), c)"
    by (simp add: handler_def)
  have digits_safe: "target c = Some t \<and> ''line-numbers'' \<in> set (classList t)
        \<and> textContent t \<noteq> [] \<and> list_all is_digit (textContent t)
        \<and> dec_value (textContent t) < 2 ^ 53 \<longrightarrow>
        handler (Some c) = Some (Num (dec_value (textContent t)), c)"
    by (simp add: handler_def parseInt_digits to_double_small)
  have digits: "target c = Some t \<and> ''line-numbers'' \<in> set (classList t)
        \<and> textContent t \<noteq> [] \<and> list_all is_digit (textContent t) \<longrightarrow>
        handler (Some c) = Some (to_double (dec_value (textContent t)), c)"
    by (simp add: handler_def parseInt_digits)
  have other: "target c = Some t \<and> ''line-numbers'' \<in> set (classList t)
        \<and> \<not> numeric_text (textContent t) \<longrightarrow>
        handler (Some c) = Some (NaN, c)"
    using nan [of "textContent t"] by (simp add: handler_def)
  from routed passed digits_safe digits other parseInt_examples show ?thesis
    by (intro conjI) assumption+
qed

theorem handler_routes_by_class_witness:
  "handler (Some \<lparr>target = Some \<lparr>classList = [''line-numbers''], textContent = ''1005''\<rparr>,
                  shiftKey = True\<rparr>)
     = Some (Num 1005, \<lparr>target = Some \<lparr>classList = [''line-numbers''], textContent = ''1005''\<rparr>,
                      shiftKey = True\<rparr>)
   \<and> handler (Some \<lparr>target = Some \<lparr>classList = [''line-numbers''], textContent = ''abc''\<rparr>,
                  shiftKey = False\<rparr>)
     = Some (NaN, \<lparr>target = Some \<lparr>classList = [''line-numbers''], textContent = ''abc''\<rparr>,
                   shiftKey = False\<rparr>)"
proof -
  let ?t1 = "\<lparr>classList = [''line-numbers''], textContent = ''1005''\<rparr>"
  let ?c1 = "\<lparr>target = Some ?t1, shiftKey = True\<rparr>"
  let ?t2 = "\<lparr>classList = [''line-numbers''], textContent = ''abc''\<rparr>"
  let ?c2 = "\<lparr>target = Some ?t2, shiftKey = False\<rparr>"
  have h1: "target ?c1 = Some ?t1 \<and> ''line-numbers'' \<in> set (classList ?t1)
      \<and> textContent ?t1 \<noteq> [] \<and> list_all is_digit (textContent ?t1)
      \<and> dec_value (textContent ?t1) < 2 ^ 53"
    by (simp add: is_digit_def dec_value_def digit_val_def)
  have v: "dec_value (textContent ?t1) = 1005"
    by (simp add: dec_value_def digit_val_def)
  have h2: "target ?c2 = Some ?t2 \<and> ''line-numbers'' \<in> set (classList ?t2)
      \<and> \<not> numeric_text (textContent ?t2)"
    by (simp add: numeric_text_def parseInt_examples)
  from handler_routes_by_class [of "Some ?c1" ?c1 ?t1,
      THEN conjunct2, THEN conjunct2, THEN conjunct1, THEN mp, OF h1] v
  have r1: "handler (Some ?c1) = Some (Num 1005, ?c1)"
    by simp
  from handler_routes_by_class [of "Some ?c2" ?c2 ?t2,
      THEN conjunct2, THEN conjunct2, THEN conjunct2, THEN conjunct2, THEN conjunct1,
      THEN mp, OF h2]
  have r2: "handler (Some ?c2) = Some (NaN, ?c2)" .
  from r1 r2 show ?thesis
    by (intro conjI) assumption+
qed

section \<open>The fragment after mounting\<close>

text \<open>
  C10. Mounting runs the effect once for the selection read from the fragment, so the
  fragment becomes the one written for that selection: the empty fragment when the old
  one does not match the pattern, as for \<^verbatim>\<open>#Lfoo\<close>, and the fragment of the minimum and
  the maximum for a range, so that \<^verbatim>\<open>#L9-3\<close>, read as \<open>(9, 3)\<close>, becomes \<^verbatim>\<open>#L3-9\<close>
  and \<^verbatim>\<open>#L1005-120\<close> becomes \<^verbatim>\<open>#L120-1005\<close>; \<^verbatim>\<open>#L007\<close> becomes \<^verbatim>\<open>#L7\<close>.
\<close>

theorem mount_rewrites_fragment:
  "cur_selected (mount h) = useState_init h
   \<and> cur_hash (mount h) = hash_effect (useState_init h)
   \<and> (\<not> hash_test h \<longrightarrow> cur_hash (mount h) = '''')
   \<and> (d1 \<noteq> [] \<and> list_all is_digit d1 \<and> d2 \<noteq> [] \<and> list_all is_digit d2 \<longrightarrow>
        cur_hash (mount (''#L'' @ d1 @ ''-'' @ d2))
          = hash_effect (Number_str d1, Number_str d2))
   \<and> mount ''#Lfoo'' = \<lparr>cur_selected = (Num (- 1), Num (- 1)), cur_hash = ''''\<rparr>
   \<and> mount ''#L9-3'' = \<lparr>cur_selected = (Num 9, Num 3), cur_hash = ''#L3-9''\<rparr>
   \<and> mount ''#L1005-120'' = \<lparr>cur_selected = (Num 1005, Num 120), cur_hash = ''#L120-1005''\<rparr>
   \<and> mount ''#L007'' = \<lparr>cur_selected = (Num 7, Num 7), cur_hash = ''#L7''\<rparr>"
proof -
  have stored: "cur_selected (mount h) = useState_init h"
    by (simp add: mount_def Let_def)
  have written: "cur_hash (mount h) = hash_effect (useState_init h)"
    by (simp add: mount_def Let_def)
  have cleared: "\<not> hash_test h \<longrightarrow> cur_hash (mount h) = ''''"
    by (simp add: mount_def Let_def useState_init_no_match hash_effect_def)
  have canonical: "d1 \<noteq> [] \<and> list_all is_digit d1 \<and> d2 \<noteq> [] \<and> list_all is_digit d2 \<longrightarrow>
      cur_hash (mount (''#L'' @ d1 @ ''-'' @ d2)) = hash_effect (Number_str d1, Number_str d2)"
    using useState_init_range [of d1 d2] by (simp add: mount_def Let_def)
  from stored written cleared canonical mount_examples show ?thesis
    by (intro conjI) assumption+
qed

theorem mount_rewrites_fragment_witness:
  "\<not> hash_test ''#Lfoo'' \<and> cur_hash (mount ''#Lfoo'') = ''''
   \<and> cur_hash (mount ''#L1005-120'') = ''#L120-1005''"
proof -
  note t = mount_rewrites_fragment [of "''#Lfoo''" "''1005''" "''120''"]
  have n: "\<not> hash_test ''#Lfoo''"
    by (simp add: hash_test_def is_digit_def)
  from t [THEN conjunct2, THEN conjunct2, THEN conjunct1, THEN mp, OF n]
  have r: "cur_hash (mount ''#Lfoo'') = ''''" .
  from t [THEN conjunct2, THEN conjunct2, THEN conjunct2, THEN conjunct2, THEN conjunct2,
      THEN conjunct2, THEN conjunct1]
  have "mount ''#L1005-120''
      = \<lparr>cur_selected = (Num 1005, Num 120), cur_hash = ''#L120-1005''\<rparr>" .
  then have m: "cur_hash (mount ''#L1005-120'') = ''#L120-1005''"
    by simp
  from n r m show ?thesis
    by (intro conjI) assumption+
qed

end
